theory Spec2Isabelle
  imports Main "HOL-Library.Word" "HOL-Library.Multiset"
begin

section \<open>Render data of the terminal core (terminalrenderdata.cpp)\<close>

text \<open>
  The theory embeds the member functions of \<^verbatim>\<open>Terminal\<close> defined in
  \<^verbatim>\<open>src/cascadia/TerminalCore/terminalrenderdata.cpp\<close> that carry an algorithm:
  \<^verbatim>\<open>GetPatternId\<close>, \<^verbatim>\<open>GetSelectionRects\<close>, \<^verbatim>\<open>GetSearchHighlights\<close>,
  \<^verbatim>\<open>_ScrollToPoints\<close>, \<^verbatim>\<open>SetSearchHighlights\<close>, \<^verbatim>\<open>SetSearchHighlightFocused\<close>
  and \<^verbatim>\<open>GetConsoleTitle\<close>. Member names lose their leading underscore.
  \<^verbatim>\<open>_assertLocked()\<close> is a debug assertion with no effect on the state and is left out.
\<close>

subsection \<open>Coordinates\<close>

text \<open>
  \<^verbatim>\<open>til::CoordType\<close> is a signed 32-bit integer (the source passes its values to
  \<^verbatim>\<open>std::max(0, ...)\<close>, whose arguments are \<^verbatim>\<open>int\<close>). Values are 32-bit words read
  through \<^const>\<open>sint\<close>; comparisons are the signed ones.

  C++ gives no meaning to a signed addition or subtraction whose mathematical result
  is not representable. The two operations below return \<^const>\<open>None\<close> there, and
  every function that uses them passes the \<^const>\<open>None\<close> on: \<^const>\<open>None\<close> stands for
  "the language defines no behaviour for this call".
\<close>

type_synonym CoordType = "32 word"

definition representable :: "int \<Rightarrow> bool" where
  "representable k \<longleftrightarrow> - (2 ^ 31) \<le> k \<and> k < 2 ^ 31"

definition sub_CoordType :: "CoordType \<Rightarrow> CoordType \<Rightarrow> CoordType option" where
  "sub_CoordType a b = (if representable (sint a - sint b) then Some (a - b) else None)"

definition add_CoordType :: "CoordType \<Rightarrow> CoordType \<Rightarrow> CoordType option" where
  "add_CoordType a b = (if representable (sint a + sint b) then Some (a + b) else None)"

text \<open>\<^verbatim>\<open>std::max(a, b)\<close> is \<^verbatim>\<open>(a < b) ? b : a\<close>, on signed values.\<close>

definition max_CoordType :: "CoordType \<Rightarrow> CoordType \<Rightarrow> CoordType" where
  "max_CoordType a b = (if a <s b then b else a)"

text \<open>\<^verbatim>\<open>til::point\<close> and \<^verbatim>\<open>til::inclusive_rect\<close>: plain structs of coordinates.\<close>

record point =
  point_x :: CoordType
  point_y :: CoordType

record inclusive_rect =
  rect_left :: CoordType
  rect_top :: CoordType
  rect_right :: CoordType
  rect_bottom :: CoordType

subsection \<open>The terminal's state\<close>

text \<open>
  An entry of \<^verbatim>\<open>_patternIntervalTree\<close>: an interval between two points and the
  pattern id stored with it (\<^verbatim>\<open>interval.value\<close>, a \<^verbatim>\<open>size_t\<close> that is only copied).
\<close>

record interval =
  interval_start :: point
  interval_stop :: point
  interval_value :: nat

text \<open>
  The two notifications \<^verbatim>\<open>_ScrollToPoints\<close> sends to its collaborators:
  \<^verbatim>\<open>_activeBuffer().TriggerScroll()\<close> and \<^verbatim>\<open>_NotifyScrollEvent()\<close>. Both are calls
  into code outside the file; the model records each call, in order, in the trace
  \<open>events\<close> of the state.
\<close>

datatype event = TriggerScroll | NotifyScrollEvent

type_synonym wstring = "16 word list"

record terminal =
  scrollOffset :: CoordType
  searchHighlights :: "inclusive_rect list"
  searchHighlightFocused :: "inclusive_rect list"
  patternIntervalTree :: "interval list"
  title :: "wstring option"
  startingTitle :: wstring
  events :: "event list"

text \<open>
  \<^verbatim>\<open>_VisibleStartIndex()\<close>, \<^verbatim>\<open>_VisibleEndIndex()\<close> and \<^verbatim>\<open>ViewStartIndex()\<close> are
  const member functions defined outside the file. They are parameters of the model:
  three functions of the terminal's state.
\<close>

record view_indices =
  VisibleStartIndex :: "terminal \<Rightarrow> CoordType"
  VisibleEndIndex :: "terminal \<Rightarrow> CoordType"
  ViewStartIndex :: "terminal \<Rightarrow> CoordType"

subsection \<open>\<^verbatim>\<open>Terminal::_ScrollToPoints\<close>\<close>

definition notify_scroll :: "terminal \<Rightarrow> terminal" where
  "notify_scroll t = t\<lparr>events := events t @ [TriggerScroll, NotifyScrollEvent]\<rparr>"

text \<open>
  The first stage is the \<^verbatim>\<open>if\<close> / \<^verbatim>\<open>else if\<close> that recomputes \<^verbatim>\<open>_scrollOffset\<close> and
  sets the local \<^verbatim>\<open>notifyScrollChange\<close>; the second stage notifies when the flag is
  set and returns \<^verbatim>\<open>_scrollOffset\<close>.
\<close>

definition recalc_scrollOffset ::
  "view_indices \<Rightarrow> terminal \<Rightarrow> point \<Rightarrow> point \<Rightarrow> (terminal \<times> bool) option" where
  "recalc_scrollOffset g t coordStart coordEnd =
     (if point_y coordStart <s VisibleStartIndex g t then
        map_option (\<lambda>d. (t\<lparr>scrollOffset := d\<rparr>, True))
          (sub_CoordType (ViewStartIndex g t) (point_y coordStart))
      else if VisibleEndIndex g t <s point_y coordEnd then
        map_option (\<lambda>d. (t\<lparr>scrollOffset := max_CoordType 0 d\<rparr>, True))
          (sub_CoordType (ViewStartIndex g t) (point_y coordStart))
      else Some (t, False))"

definition ScrollToPoints ::
  "view_indices \<Rightarrow> terminal \<Rightarrow> point \<Rightarrow> point \<Rightarrow> (terminal \<times> CoordType) option" where
  "ScrollToPoints g t coordStart coordEnd =
     map_option
       (\<lambda>(t1, notifyScrollChange).
          let t2 = (if notifyScrollChange then notify_scroll t1 else t1)
          in (t2, scrollOffset t2))
       (recalc_scrollOffset g t coordStart coordEnd)"

subsection \<open>\<^verbatim>\<open>Terminal::SetSearchHighlights\<close> and \<^verbatim>\<open>Terminal::SetSearchHighlightFocused\<close>\<close>

definition SetSearchHighlights :: "terminal \<Rightarrow> inclusive_rect list \<Rightarrow> terminal" where
  "SetSearchHighlights t highlights = t\<lparr>searchHighlights := highlights\<rparr>"


definition GetSearchHighlightFocused :: "terminal \<Rightarrow> inclusive_rect list" where
  "GetSearchHighlightFocused t = searchHighlightFocused t"

subsection \<open>\<^verbatim>\<open>Terminal::GetConsoleTitle\<close>\<close>

definition GetConsoleTitle :: "terminal \<Rightarrow> wstring" where
  "GetConsoleTitle t = (case title t of Some s \<Rightarrow> s | None \<Rightarrow> startingTitle t)"

subsection \<open>\<^verbatim>\<open>Terminal::GetPatternId\<close>\<close>

text \<open>
  Modelled from the spec: \<^verbatim>\<open>IntervalTree::findOverlapping\<close>, the query of the
  interval structure, which is not among the sources. The spec has it return "all
  intervals overlapping" the queried range. The index is the list of the intervals it
  holds; the test that decides whether a stored interval overlaps the range between
  the two query points belongs to the absent structure and is the parameter
  \<open>overlaps\<close>.
\<close>

definition findOverlapping ::
  "(point \<Rightarrow> point \<Rightarrow> interval \<Rightarrow> bool) \<Rightarrow> interval list \<Rightarrow> point \<Rightarrow> point \<Rightarrow> interval list" where
  "findOverlapping overlaps tree start stop = filter (overlaps start stop) tree"

text \<open>The range-for loop: \<^verbatim>\<open>result.emplace_back(interval.value)\<close> for each interval.\<close>

fun emplace_values :: "interval list \<Rightarrow> nat list \<Rightarrow> nat list" where
  "emplace_values [] result = result"
| "emplace_values (i # intervals) result =
     emplace_values intervals (result @ [interval_value i])"

text \<open>
  The query is \<^verbatim>\<open>findOverlapping({ location.x + 1, location.y }, location)\<close>; the
  addition is the signed one.
\<close>

definition GetPatternId ::
  "(point \<Rightarrow> point \<Rightarrow> interval \<Rightarrow> bool) \<Rightarrow> terminal \<Rightarrow> point \<Rightarrow> nat list option" where
  "GetPatternId overlaps t location =
     map_option
       (\<lambda>x1.
          let intervals =
                findOverlapping overlaps (patternIntervalTree t)
                  \<lparr>point_x = x1, point_y = point_y location\<rparr> location
          in if length intervals = 0 then [] else emplace_values intervals [])
       (add_CoordType (point_x location) 1)"

subsection \<open>Exceptions and the function-try-blocks\<close>

text \<open>
  \<^verbatim>\<open>GetSelectionRects\<close> and \<^verbatim>\<open>GetSearchHighlights\<close> are function-try-blocks. The body
  of each is a computation that ends with a value (\<^const>\<open>Inr\<close>) or with a raised
  exception (\<^const>\<open>Inl\<close>). The handler \<^verbatim>\<open>catch (...) { LOG_CAUGHT_EXCEPTION(); return {}; }\<close>
  turns a raised exception into the empty vector; the accessor's result is the vector
  together with the list of exceptions handed to the log.
\<close>

datatype exception = bad_alloc | length_error | other_exception string

definition catch_all :: "exception + 'a list \<Rightarrow> 'a list \<times> exception list" where
  "catch_all body = (case body of Inr v \<Rightarrow> (v, []) | Inl e \<Rightarrow> ([], [e]))"

subsection \<open>\<^verbatim>\<open>Terminal::GetSelectionRects\<close>\<close>

text \<open>
  \<^verbatim>\<open>_GetSelectionRects()\<close> and \<^verbatim>\<open>Viewport::FromInclusive\<close> are defined outside the
  file; both are parameters, and either may raise. \<open>emplace_ok n\<close> tells whether
  \<^verbatim>\<open>emplace_back\<close> on a vector of \<open>n\<close> elements finds the memory it needs.
\<close>

fun emplace_viewports ::
  "(inclusive_rect \<Rightarrow> exception + 'v) \<Rightarrow> (nat \<Rightarrow> bool) \<Rightarrow> inclusive_rect list \<Rightarrow> 'v list
    \<Rightarrow> exception + 'v list" where
  "emplace_viewports FromInclusive emplace_ok [] result = Inr result"
| "emplace_viewports FromInclusive emplace_ok (lineRect # rest) result =
     (case FromInclusive lineRect of
        Inl e \<Rightarrow> Inl e
      | Inr v \<Rightarrow>
          if emplace_ok (length result)
          then emplace_viewports FromInclusive emplace_ok rest (result @ [v])
          else Inl bad_alloc)"

definition GetSelectionRects_body ::
  "(terminal \<Rightarrow> exception + inclusive_rect list) \<Rightarrow> (inclusive_rect \<Rightarrow> exception + 'v)
    \<Rightarrow> (nat \<Rightarrow> bool) \<Rightarrow> terminal \<Rightarrow> exception + 'v list" where
  "GetSelectionRects_body GetSelectionRects_inner FromInclusive emplace_ok t =
     (case GetSelectionRects_inner t of
        Inl e \<Rightarrow> Inl e
      | Inr rects \<Rightarrow> emplace_viewports FromInclusive emplace_ok rects [])"

definition GetSelectionRects ::
  "(terminal \<Rightarrow> exception + inclusive_rect list) \<Rightarrow> (inclusive_rect \<Rightarrow> exception + 'v)
    \<Rightarrow> (nat \<Rightarrow> bool) \<Rightarrow> terminal \<Rightarrow> 'v list \<times> exception list" where
  "GetSelectionRects GetSelectionRects_inner FromInclusive emplace_ok t =
     catch_all (GetSelectionRects_body GetSelectionRects_inner FromInclusive emplace_ok t)"

subsection \<open>\<^verbatim>\<open>Terminal::GetSearchHighlights\<close>\<close>

text \<open>
  \<^verbatim>\<open>std::lower_bound\<close> and \<^verbatim>\<open>std::upper_bound\<close> with a comparison object, as the
  standard library implements them: a halving search over \<open>len\<close> elements from
  position \<open>first\<close>. Positions are indices into the vector. Started on the whole
  vector, the search reads only positions below its length.
\<close>

function lower_bound_loop :: "'a list \<Rightarrow> 'v \<Rightarrow> ('a \<Rightarrow> 'v \<Rightarrow> bool) \<Rightarrow> nat \<Rightarrow> nat \<Rightarrow> nat" where
  "lower_bound_loop xs v pred first len =
     (if 0 < len then
        (if pred (xs ! (first + len div 2)) v
         then lower_bound_loop xs v pred (first + len div 2 + 1) (len - (len div 2 + 1))
         else lower_bound_loop xs v pred first (len div 2))
      else first)"
  by pat_completeness auto
termination
  by (relation "measure (\<lambda>(xs, v, pred, first, len). len)") auto

function upper_bound_loop :: "'a list \<Rightarrow> 'v \<Rightarrow> ('v \<Rightarrow> 'a \<Rightarrow> bool) \<Rightarrow> nat \<Rightarrow> nat \<Rightarrow> nat" where
  "upper_bound_loop xs v pred first len =
     (if 0 < len then
        (if \<not> pred v (xs ! (first + len div 2))
         then upper_bound_loop xs v pred (first + len div 2 + 1) (len - (len div 2 + 1))
         else upper_bound_loop xs v pred first (len div 2))
      else first)"
  by pat_completeness auto
termination
  by (relation "measure (\<lambda>(xs, v, pred, first, len). len)") auto

definition lower_bound :: "'a list \<Rightarrow> 'v \<Rightarrow> ('a \<Rightarrow> 'v \<Rightarrow> bool) \<Rightarrow> nat" where
  "lower_bound xs v pred = lower_bound_loop xs v pred 0 (length xs)"

definition upper_bound :: "'a list \<Rightarrow> 'v \<Rightarrow> ('v \<Rightarrow> 'a \<Rightarrow> bool) \<Rightarrow> nat" where
  "upper_bound xs v pred = upper_bound_loop xs v pred 0 (length xs)"

text \<open>
  \<^verbatim>\<open>return { lowerIt, upperIt };\<close> builds the result vector from the iterator pair.
  An empty range allocates nothing; \<open>alloc n\<close> tells whether the memory for \<open>n\<close>
  elements is found. A pair with \<open>upperIt\<close> before \<open>lowerIt\<close> is no range: the
  standard leaves the construction undefined there, and the vector of the library the
  project builds with sees an element count beyond \<^verbatim>\<open>max_size()\<close> and raises
  \<^verbatim>\<open>length_error\<close>.
\<close>

definition vector_from_range ::
  "(nat \<Rightarrow> bool) \<Rightarrow> 'a list \<Rightarrow> nat \<Rightarrow> nat \<Rightarrow> exception + 'a list" where
  "vector_from_range alloc xs lowerIt upperIt =
     (if upperIt < lowerIt then Inl length_error
      else if upperIt = lowerIt then Inr []
      else if alloc (upperIt - lowerIt) then Inr (take (upperIt - lowerIt) (drop lowerIt xs))
      else Inl bad_alloc)"

text \<open>
  \<^verbatim>\<open>_GetVisibleViewport()\<close> and the class \<^verbatim>\<open>Viewport\<close> are defined outside the file.
  The accessor reads two rows of the viewport, \<^verbatim>\<open>Top()\<close> and \<^verbatim>\<open>BottomExclusive()\<close>;
  they are the parameter \<open>viewport\<close>.
\<close>

record viewport_rows =
  viewport_Top :: CoordType
  viewport_BottomExclusive :: CoordType

definition GetSearchHighlights_body ::
  "(nat \<Rightarrow> bool) \<Rightarrow> viewport_rows \<Rightarrow> terminal \<Rightarrow> exception + inclusive_rect list" where
  "GetSearchHighlights_body alloc viewport t =
     (let lowerIt = lower_bound (searchHighlights t) (viewport_Top viewport)
                      (\<lambda>rect value. rect_top rect <s value);
          upperIt = upper_bound (searchHighlights t) (viewport_BottomExclusive viewport)
                      (\<lambda>value rect. value <s rect_top rect)
      in vector_from_range alloc (searchHighlights t) lowerIt upperIt)"

definition GetSearchHighlights ::
  "(nat \<Rightarrow> bool) \<Rightarrow> viewport_rows \<Rightarrow> terminal \<Rightarrow> inclusive_rect list \<times> exception list" where
  "GetSearchHighlights alloc viewport t = catch_all (GetSearchHighlights_body alloc viewport t)"

declare lower_bound_loop.simps [simp del] upper_bound_loop.simps [simp del]

text \<open>
  The precondition of the accessor, which \<^verbatim>\<open>SetSearchHighlights\<close> trusts its caller
  to keep: the rectangles are stored in ascending order of their top row.
\<close>

definition sorted_by_top :: "inclusive_rect list \<Rightarrow> bool" where
  "sorted_by_top rects = sorted_wrt (\<lambda>a b. rect_top a \<le>s rect_top b) rects"

subsection \<open>Rows in view\<close>



subsection \<open>Concrete states for the examples\<close>

text \<open>
  A terminal whose unscrolled viewport shows rows 50 to 79: the visible rows are these
  rows moved up by the scroll offset.
\<close>

definition example_indices :: view_indices where
  "example_indices =
     \<lparr>VisibleStartIndex = (\<lambda>t. 50 - scrollOffset t),
      VisibleEndIndex = (\<lambda>t. 79 - scrollOffset t),
      ViewStartIndex = (\<lambda>t. 50)\<rparr>"

definition example_terminal :: terminal where
  "example_terminal =
     \<lparr>scrollOffset = 0, searchHighlights = [], searchHighlightFocused = [],
      patternIntervalTree = [], title = None, startingTitle = [], events = []\<rparr>"

definition rect_at :: "CoordType \<Rightarrow> inclusive_rect" where
  "rect_at row = \<lparr>rect_left = 0, rect_top = row, rect_right = 9, rect_bottom = row\<rparr>"

text \<open>
  An overlap test for the examples: the stored interval lies on the row of the queried
  point and holds its column.
\<close>

definition example_overlaps :: "point \<Rightarrow> point \<Rightarrow> interval \<Rightarrow> bool" where
  "example_overlaps start stop i \<longleftrightarrow>
     point_y (interval_start i) = point_y stop \<and> point_y (interval_stop i) = point_y stop \<and>
     point_x (interval_start i) \<le>s point_x stop \<and> point_x stop <s point_x (interval_stop i)"

definition example_interval :: "CoordType \<Rightarrow> CoordType \<Rightarrow> CoordType \<Rightarrow> nat \<Rightarrow> interval" where
  "example_interval row from to ident =
     \<lparr>interval_start = \<lparr>point_x = from, point_y = row\<rparr>,
      interval_stop = \<lparr>point_x = to, point_y = row\<rparr>, interval_value = ident\<rparr>"

section \<open>Signed arithmetic\<close>

lemma sint_diff_representable:
  "representable (sint a - sint b) \<Longrightarrow> sint (a - b) = sint a - sint (b :: CoordType)"
  by (simp add: representable_def sint_word_ariths signed_take_bit_int_eq_self)

lemma sint_max_CoordType: "sint (max_CoordType a b) = max (sint a) (sint b)"
  by (simp add: max_CoordType_def word_sless_alt max_def)

text \<open>
  Rows and columns of a buffer are not negative. The difference of two such rows is
  always representable, and so is the successor of every column but the largest
  coordinate: on buffer coordinates the operations are defined.
\<close>

lemma representable_diff_of_rows:
  fixes a b :: CoordType
  assumes "0 \<le> sint a" and "0 \<le> sint b"
  shows "representable (sint a - sint b)"
proof -
  have "sint a < 2 ^ 31" "sint b < 2 ^ 31"
    using sint_lt [of a] sint_lt [of b] by simp_all
  with assms show ?thesis
    by (simp add: representable_def)
qed

lemma add_CoordType_one:
  "add_CoordType a 1 = (if sint a < 2 ^ 31 - 1 then Some (a + 1) else None)"
proof -
  have "- (2 ^ 31) \<le> sint a"
    using sint_ge [of a] by simp
  then show ?thesis
    by (simp add: add_CoordType_def representable_def)
qed

section \<open>The scroll offset after \<^verbatim>\<open>_ScrollToPoints\<close>\<close>

subsection \<open>The three cases of the first stage\<close>

lemma recalc_above:
  "point_y coordStart <s VisibleStartIndex g t \<Longrightarrow>
   representable (sint (ViewStartIndex g t) - sint (point_y coordStart)) \<Longrightarrow>
   recalc_scrollOffset g t coordStart coordEnd =
     Some (t\<lparr>scrollOffset := ViewStartIndex g t - point_y coordStart\<rparr>, True)"
  by (simp add: recalc_scrollOffset_def sub_CoordType_def)

lemma recalc_below:
  "\<not> point_y coordStart <s VisibleStartIndex g t \<Longrightarrow>
   VisibleEndIndex g t <s point_y coordEnd \<Longrightarrow>
   representable (sint (ViewStartIndex g t) - sint (point_y coordStart)) \<Longrightarrow>
   recalc_scrollOffset g t coordStart coordEnd =
     Some (t\<lparr>scrollOffset := max_CoordType 0 (ViewStartIndex g t - point_y coordStart)\<rparr>, True)"
  by (simp add: recalc_scrollOffset_def sub_CoordType_def)

lemma recalc_visible:
  "\<not> point_y coordStart <s VisibleStartIndex g t \<Longrightarrow>
   \<not> VisibleEndIndex g t <s point_y coordEnd \<Longrightarrow>
   recalc_scrollOffset g t coordStart coordEnd = Some (t, False)"
  by (simp add: recalc_scrollOffset_def)


subsection \<open>Range above the viewport\<close>

text \<open>
  Claim C2. When the start row lies strictly above the visible top row (and the
  subtraction is defined), \<^verbatim>\<open>_ScrollToPoints\<close> stores and returns
  \<^verbatim>\<open>ViewStartIndex() - coordStart.y\<close>, and notifies. The view start row minus the new
  offset is the start row; so in every new state whose visible top row is its view
  start row minus its offset, with the view start row unchanged, the start row is the
  visible top row.
\<close>

theorem ScrollToPoints_above_viewport:
  assumes "point_y coordStart <s VisibleStartIndex g t"
    and "representable (sint (ViewStartIndex g t) - sint (point_y coordStart))"
  shows "ScrollToPoints g t coordStart coordEnd =
           Some (notify_scroll (t\<lparr>scrollOffset := ViewStartIndex g t - point_y coordStart\<rparr>),
                 ViewStartIndex g t - point_y coordStart)
         \<and> sint (ViewStartIndex g t - point_y coordStart) =
             sint (ViewStartIndex g t) - sint (point_y coordStart)
         \<and> (\<forall>t' offset.
               ScrollToPoints g t coordStart coordEnd = Some (t', offset) \<and>
               ViewStartIndex g t' = ViewStartIndex g t \<and>
               sint (VisibleStartIndex g t') = sint (ViewStartIndex g t') - sint (scrollOffset t')
               \<longrightarrow> VisibleStartIndex g t' = point_y coordStart)"
proof -
  have eq: "ScrollToPoints g t coordStart coordEnd =
           Some (notify_scroll (t\<lparr>scrollOffset := ViewStartIndex g t - point_y coordStart\<rparr>),
                 ViewStartIndex g t - point_y coordStart)"
    using assms by (simp add: ScrollToPoints_def recalc_above notify_scroll_def)
  have d: "sint (ViewStartIndex g t - point_y coordStart) =
             sint (ViewStartIndex g t) - sint (point_y coordStart)"
    using assms(2) by (rule sint_diff_representable)
  have "VisibleStartIndex g t' = point_y coordStart"
    if "ScrollToPoints g t coordStart coordEnd = Some (t', offset)"
      and "ViewStartIndex g t' = ViewStartIndex g t"
      and "sint (VisibleStartIndex g t') = sint (ViewStartIndex g t') - sint (scrollOffset t')"
    for t' offset
  proof -
    from that(1) eq have "scrollOffset t' = ViewStartIndex g t - point_y coordStart"
      by (auto simp: notify_scroll_def)
    with that(2,3) d have "sint (VisibleStartIndex g t') = sint (point_y coordStart)"
      by simp
    then show ?thesis by (rule signed_word_eqI)
  qed
  with eq d show ?thesis by blast
qed

theorem ScrollToPoints_above_viewport_witness:
  "point_y \<lparr>point_x = 0, point_y = 40\<rparr> <s VisibleStartIndex example_indices example_terminal
   \<and> ScrollToPoints example_indices example_terminal
        \<lparr>point_x = 0, point_y = 40\<rparr> \<lparr>point_x = 5, point_y = 60\<rparr> =
       Some (example_terminal\<lparr>scrollOffset := 10, events := [TriggerScroll, NotifyScrollEvent]\<rparr>,
             10)
   \<and> VisibleStartIndex example_indices
        (example_terminal\<lparr>scrollOffset := 10, events := [TriggerScroll, NotifyScrollEvent]\<rparr>) = 40"
proof -
  have a: "point_y \<lparr>point_x = 0, point_y = 40\<rparr> <s VisibleStartIndex example_indices example_terminal"
    by (simp add: example_indices_def example_terminal_def)
  have b: "representable (sint (ViewStartIndex example_indices example_terminal)
       - sint (point_y \<lparr>point_x = 0, point_y = 40 :: CoordType\<rparr>))"
    by (simp add: example_indices_def representable_def)
  note w = ScrollToPoints_above_viewport [OF a b, of "\<lparr>point_x = 5, point_y = 60\<rparr>"]
  have c: "ScrollToPoints example_indices example_terminal
        \<lparr>point_x = 0, point_y = 40\<rparr> \<lparr>point_x = 5, point_y = 60\<rparr> =
       Some (example_terminal\<lparr>scrollOffset := 10, events := [TriggerScroll, NotifyScrollEvent]\<rparr>,
             10)"
    using w [THEN conjunct1]
    by (simp add: example_indices_def example_terminal_def notify_scroll_def)
  have "VisibleStartIndex example_indices
        (example_terminal\<lparr>scrollOffset := 10, events := [TriggerScroll, NotifyScrollEvent]\<rparr>)
        = point_y \<lparr>point_x = 0, point_y = 40\<rparr>"
    by (rule w [THEN conjunct2, THEN conjunct2, rule_format, of _ 10])
      (simp add: c, simp_all add: example_indices_def)
  with a c show ?thesis by simp
qed

subsection \<open>Range below the viewport\<close>

text \<open>
  Claim C3. When the start row is not above the visible top row and the end row lies
  strictly below the visible bottom row (and the subtraction is defined),
  \<^verbatim>\<open>_ScrollToPoints\<close> stores and returns \<^verbatim>\<open>std::max(0, ViewStartIndex() - coordStart.y)\<close>,
  whose signed value is the maximum of 0 and the difference of the two rows, and so is
  not negative.
\<close>

theorem ScrollToPoints_below_viewport:
  assumes "\<not> point_y coordStart <s VisibleStartIndex g t"
    and "VisibleEndIndex g t <s point_y coordEnd"
    and "representable (sint (ViewStartIndex g t) - sint (point_y coordStart))"
  shows "ScrollToPoints g t coordStart coordEnd =
           Some (notify_scroll
                   (t\<lparr>scrollOffset := max_CoordType 0 (ViewStartIndex g t - point_y coordStart)\<rparr>),
                 max_CoordType 0 (ViewStartIndex g t - point_y coordStart))
         \<and> sint (max_CoordType 0 (ViewStartIndex g t - point_y coordStart)) =
             max 0 (sint (ViewStartIndex g t) - sint (point_y coordStart))
         \<and> 0 \<le> sint (max_CoordType 0 (ViewStartIndex g t - point_y coordStart))"
  using assms
  by (simp add: ScrollToPoints_def recalc_below sint_diff_representable notify_scroll_def
      sint_max_CoordType)

theorem ScrollToPoints_below_viewport_witness:
  "\<not> point_y \<lparr>point_x = 0, point_y = 60\<rparr> <s VisibleStartIndex example_indices example_terminal
   \<and> VisibleEndIndex example_indices example_terminal <s point_y \<lparr>point_x = 5, point_y = 90\<rparr>
   \<and> ScrollToPoints example_indices example_terminal
        \<lparr>point_x = 0, point_y = 60\<rparr> \<lparr>point_x = 5, point_y = 90\<rparr> =
       Some (example_terminal\<lparr>scrollOffset := 0, events := [TriggerScroll, NotifyScrollEvent]\<rparr>, 0)
   \<and> ScrollToPoints example_indices (example_terminal\<lparr>scrollOffset := 30\<rparr>)
        \<lparr>point_x = 0, point_y = 30\<rparr> \<lparr>point_x = 5, point_y = 55\<rparr> =
       Some (example_terminal\<lparr>scrollOffset := 20, events := [TriggerScroll, NotifyScrollEvent]\<rparr>,
             20)"
proof -
  have a1: "\<not> point_y \<lparr>point_x = 0, point_y = 60\<rparr> <s VisibleStartIndex example_indices example_terminal"
    and a2: "VisibleEndIndex example_indices example_terminal <s point_y \<lparr>point_x = 5, point_y = 90\<rparr>"
    and a3: "representable (sint (ViewStartIndex example_indices example_terminal)
       - sint (point_y \<lparr>point_x = 0, point_y = 60 :: CoordType\<rparr>))"
    by (simp_all add: example_indices_def example_terminal_def representable_def)
  have b1: "\<not> point_y \<lparr>point_x = 0, point_y = 30\<rparr>
        <s VisibleStartIndex example_indices (example_terminal\<lparr>scrollOffset := 30\<rparr>)"
    and b2: "VisibleEndIndex example_indices (example_terminal\<lparr>scrollOffset := 30\<rparr>)
        <s point_y \<lparr>point_x = 5, point_y = 55\<rparr>"
    and b3: "representable
       (sint (ViewStartIndex example_indices (example_terminal\<lparr>scrollOffset := 30\<rparr>))
       - sint (point_y \<lparr>point_x = 0, point_y = 30 :: CoordType\<rparr>))"
    by (simp_all add: example_indices_def example_terminal_def representable_def)
  show ?thesis
    using a1 a2 ScrollToPoints_below_viewport [OF a1 a2 a3, THEN conjunct1]
      ScrollToPoints_below_viewport [OF b1 b2 b3, THEN conjunct1]
    by (simp add: example_indices_def example_terminal_def notify_scroll_def max_CoordType_def
        word_sless_alt)
qed

subsection \<open>Range inside the viewport\<close>

text \<open>
  Claim C4. When the start row is not above the visible top row and the end row is not
  below the visible bottom row, \<^verbatim>\<open>_ScrollToPoints\<close> returns the offset it found and
  leaves the whole state as it was: the trace of notifications included, so neither
  \<^verbatim>\<open>TriggerScroll\<close> nor \<^verbatim>\<open>_NotifyScrollEvent\<close> is called. A second call with the same
  range, made in the state the first call left, again changes nothing.
\<close>

theorem ScrollToPoints_visible_range:
  assumes "\<not> point_y coordStart <s VisibleStartIndex g t"
    and "\<not> VisibleEndIndex g t <s point_y coordEnd"
  shows "ScrollToPoints g t coordStart coordEnd = Some (t, scrollOffset t)
         \<and> Option.bind (ScrollToPoints g t coordStart coordEnd)
              (\<lambda>(t', offset). ScrollToPoints g t' coordStart coordEnd) = Some (t, scrollOffset t)"
  using assms by (simp add: ScrollToPoints_def recalc_visible)

theorem ScrollToPoints_visible_range_witness:
  "\<not> point_y \<lparr>point_x = 0, point_y = 55\<rparr> <s VisibleStartIndex example_indices example_terminal
   \<and> \<not> VisibleEndIndex example_indices example_terminal <s point_y \<lparr>point_x = 5, point_y = 60\<rparr>
   \<and> ScrollToPoints example_indices example_terminal
        \<lparr>point_x = 0, point_y = 55\<rparr> \<lparr>point_x = 5, point_y = 60\<rparr> = Some (example_terminal, 0)"
proof -
  have a: "\<not> point_y \<lparr>point_x = 0, point_y = 55\<rparr> <s VisibleStartIndex example_indices example_terminal"
    and b: "\<not> VisibleEndIndex example_indices example_terminal <s point_y \<lparr>point_x = 5, point_y = 60\<rparr>"
    by (simp_all add: example_indices_def example_terminal_def)
  show ?thesis
    using a b ScrollToPoints_visible_range [OF a b, THEN conjunct1]
    by (simp add: example_terminal_def)
qed

subsection \<open>Notifications\<close>

text \<open>
  Claim C5. A call of \<^verbatim>\<open>_ScrollToPoints\<close> whose subtraction does not overflow returns,
  and it returns the stored offset. The offset is assigned by at most one branch: the
  first one when the start row is above the viewport (also when the end row is below
  it), the second one only otherwise. When a branch was taken, exactly the two
  notifications \<^verbatim>\<open>TriggerScroll\<close>, \<^verbatim>\<open>_NotifyScrollEvent\<close> are added to the trace, once
  each and in that order; when none was taken, nothing is added.
\<close>

theorem ScrollToPoints_notifies_once:
  assumes "point_y coordStart <s VisibleStartIndex g t \<or> VisibleEndIndex g t <s point_y coordEnd
      \<Longrightarrow> representable (sint (ViewStartIndex g t) - sint (point_y coordStart))"
  shows "ScrollToPoints g t coordStart coordEnd \<noteq> None
         \<and> (\<forall>t' offset. ScrollToPoints g t coordStart coordEnd = Some (t', offset) \<longrightarrow>
               offset = scrollOffset t'
               \<and> events t' =
                   events t @
                     (if point_y coordStart <s VisibleStartIndex g t \<or>
                         VisibleEndIndex g t <s point_y coordEnd
                      then [TriggerScroll, NotifyScrollEvent] else [])
               \<and> scrollOffset t' =
                   (if point_y coordStart <s VisibleStartIndex g t
                    then ViewStartIndex g t - point_y coordStart
                    else if VisibleEndIndex g t <s point_y coordEnd
                    then max_CoordType 0 (ViewStartIndex g t - point_y coordStart)
                    else scrollOffset t))"
proof -
  consider (above) "point_y coordStart <s VisibleStartIndex g t"
    | (below) "\<not> point_y coordStart <s VisibleStartIndex g t"
        "VisibleEndIndex g t <s point_y coordEnd"
    | (visible) "\<not> point_y coordStart <s VisibleStartIndex g t"
        "\<not> VisibleEndIndex g t <s point_y coordEnd"
    by blast
  then show ?thesis
  proof cases
    case above
    with assms have "representable (sint (ViewStartIndex g t) - sint (point_y coordStart))"
      by blast
    with above show ?thesis
      by (auto simp: ScrollToPoints_def recalc_above notify_scroll_def)
  next
    case below
    with assms have "representable (sint (ViewStartIndex g t) - sint (point_y coordStart))"
      by blast
    with below show ?thesis
      by (auto simp: ScrollToPoints_def recalc_below notify_scroll_def)
  next
    case visible
    then show ?thesis
      by (auto simp: ScrollToPoints_def recalc_visible)
  qed
qed

text \<open>
  Three calls on visible rows 50 to 79. Rows 40 to 90: both conditions hold, the first
  branch alone assigns the offset 10, and the two notifications are sent once. Rows 60
  to 90: the second branch assigns the clamped offset 0 and the same two notifications
  are sent. Rows 55 to 60: no branch, nothing is sent.
\<close>

theorem ScrollToPoints_notifies_once_witness:
  "ScrollToPoints example_indices example_terminal
      \<lparr>point_x = 0, point_y = 40\<rparr> \<lparr>point_x = 5, point_y = 90\<rparr> =
     Some (example_terminal\<lparr>scrollOffset := 10, events := [TriggerScroll, NotifyScrollEvent]\<rparr>, 10)
   \<and> ScrollToPoints example_indices example_terminal
      \<lparr>point_x = 0, point_y = 60\<rparr> \<lparr>point_x = 5, point_y = 90\<rparr> =
     Some (example_terminal\<lparr>scrollOffset := 0, events := [TriggerScroll, NotifyScrollEvent]\<rparr>, 0)
   \<and> ScrollToPoints example_indices example_terminal
      \<lparr>point_x = 0, point_y = 55\<rparr> \<lparr>point_x = 5, point_y = 60\<rparr> = Some (example_terminal, 0)"
proof -
  have r1: "representable (sint (ViewStartIndex example_indices example_terminal)
      - sint (point_y \<lparr>point_x = 0, point_y = 40 :: CoordType\<rparr>))"
    and r2: "representable (sint (ViewStartIndex example_indices example_terminal)
      - sint (point_y \<lparr>point_x = 0, point_y = 60 :: CoordType\<rparr>))"
    and r3: "representable (sint (ViewStartIndex example_indices example_terminal)
      - sint (point_y \<lparr>point_x = 0, point_y = 55 :: CoordType\<rparr>))"
    by (simp_all add: example_indices_def representable_def)
  note w1 = ScrollToPoints_notifies_once [of "\<lparr>point_x = 0, point_y = 40\<rparr>" example_indices
      example_terminal "\<lparr>point_x = 5, point_y = 90\<rparr>", OF r1]
  note w2 = ScrollToPoints_notifies_once [of "\<lparr>point_x = 0, point_y = 60\<rparr>" example_indices
      example_terminal "\<lparr>point_x = 5, point_y = 90\<rparr>", OF r2]
  note w3 = ScrollToPoints_notifies_once [of "\<lparr>point_x = 0, point_y = 55\<rparr>" example_indices
      example_terminal "\<lparr>point_x = 5, point_y = 60\<rparr>", OF r3]
  have other: "t' = example_terminal\<lparr>scrollOffset := scrollOffset t', events := events t'\<rparr>"
    if "ScrollToPoints example_indices example_terminal p q = Some (t', offset)" for p q t' offset
    using that
    by (auto simp: ScrollToPoints_def recalc_scrollOffset_def notify_scroll_def
        split: if_splits)
  have a: "ScrollToPoints example_indices example_terminal
      \<lparr>point_x = 0, point_y = 40\<rparr> \<lparr>point_x = 5, point_y = 90\<rparr> =
     Some (example_terminal\<lparr>scrollOffset := 10, events := [TriggerScroll, NotifyScrollEvent]\<rparr>, 10)"
  proof -
    from w1 obtain t' offset where s: "ScrollToPoints example_indices example_terminal
      \<lparr>point_x = 0, point_y = 40\<rparr> \<lparr>point_x = 5, point_y = 90\<rparr> = Some (t', offset)"
      by auto
    from w1 [THEN conjunct2, rule_format, OF s]
    have "offset = 10" "scrollOffset t' = 10" "events t' = [TriggerScroll, NotifyScrollEvent]"
      by (simp_all add: example_indices_def example_terminal_def)
    with other [OF s] s show ?thesis by simp
  qed
  have b: "ScrollToPoints example_indices example_terminal
      \<lparr>point_x = 0, point_y = 60\<rparr> \<lparr>point_x = 5, point_y = 90\<rparr> =
     Some (example_terminal\<lparr>scrollOffset := 0, events := [TriggerScroll, NotifyScrollEvent]\<rparr>, 0)"
  proof -
    from w2 obtain t' offset where s: "ScrollToPoints example_indices example_terminal
      \<lparr>point_x = 0, point_y = 60\<rparr> \<lparr>point_x = 5, point_y = 90\<rparr> = Some (t', offset)"
      by auto
    from w2 [THEN conjunct2, rule_format, OF s]
    have "offset = 0" "scrollOffset t' = 0" "events t' = [TriggerScroll, NotifyScrollEvent]"
      by (simp_all add: example_indices_def example_terminal_def max_CoordType_def word_sless_alt)
    with other [OF s] s show ?thesis by simp
  qed
  have c: "ScrollToPoints example_indices example_terminal
      \<lparr>point_x = 0, point_y = 55\<rparr> \<lparr>point_x = 5, point_y = 60\<rparr> = Some (example_terminal, 0)"
  proof -
    from w3 obtain t' offset where s: "ScrollToPoints example_indices example_terminal
      \<lparr>point_x = 0, point_y = 55\<rparr> \<lparr>point_x = 5, point_y = 60\<rparr> = Some (t', offset)"
      by auto
    from w3 [THEN conjunct2, rule_format, OF s]
    have "offset = 0" "scrollOffset t' = 0" "events t' = []"
      by (simp_all add: example_indices_def example_terminal_def)
    with other [OF s] s show ?thesis by (simp add: example_terminal_def)
  qed
  from a b c show ?thesis by blast
qed

subsection \<open>The offset stays non-negative\<close>

text \<open>
  Claim C9, as stated for every call, fails where the branch for a range above the
  viewport overflows. The view start row is 50, the scroll offset 0, so the visible
  top row is 50 and the two conditions of the claim hold; the start row is the least
  coordinate. The subtraction \<^verbatim>\<open>ViewStartIndex() - coordStart.y\<close> of the first branch
  is not representable: the call has no defined result, and the 32-bit value the
  subtraction wraps to is negative.
\<close>

theorem ScrollToPoints_offset_nonneg_counterexample:
  "sint (VisibleStartIndex example_indices example_terminal)
     = sint (ViewStartIndex example_indices example_terminal) - sint (scrollOffset example_terminal)
   \<and> 0 \<le> sint (scrollOffset example_terminal)
   \<and> point_y \<lparr>point_x = 0, point_y = - (2 ^ 31)\<rparr>
        <s VisibleStartIndex example_indices example_terminal
   \<and> ScrollToPoints example_indices example_terminal
        \<lparr>point_x = 0, point_y = - (2 ^ 31)\<rparr> \<lparr>point_x = 5, point_y = - (2 ^ 31)\<rparr> = None
   \<and> sint (ViewStartIndex example_indices example_terminal
             - point_y \<lparr>point_x = 0, point_y = - (2 ^ 31)\<rparr>) = - 2147483598"
  by (simp add: ScrollToPoints_def recalc_scrollOffset_def sub_CoordType_def representable_def
      example_indices_def example_terminal_def word_sless_alt)

text \<open>
  Claim C9, amended: for a call whose subtraction does not overflow. If, before the
  call, the visible top row is the view start row minus the scroll offset and the
  scroll offset is not negative, then the call returns, and the offset it stores and
  returns is not negative. In the branch for a range above the viewport there is no
  clamp: there the start row is below the view start row by more than the old offset.
\<close>

theorem ScrollToPoints_offset_nonneg:
  assumes "sint (VisibleStartIndex g t) = sint (ViewStartIndex g t) - sint (scrollOffset t)"
    and "0 \<le> sint (scrollOffset t)"
    and "point_y coordStart <s VisibleStartIndex g t \<or> VisibleEndIndex g t <s point_y coordEnd
      \<Longrightarrow> representable (sint (ViewStartIndex g t) - sint (point_y coordStart))"
  shows "ScrollToPoints g t coordStart coordEnd \<noteq> None
         \<and> (\<forall>t' offset. ScrollToPoints g t coordStart coordEnd = Some (t', offset) \<longrightarrow>
               0 \<le> sint (scrollOffset t') \<and> offset = scrollOffset t')"
proof (cases "point_y coordStart <s VisibleStartIndex g t")
  case True
  with assms(3) have r: "representable (sint (ViewStartIndex g t) - sint (point_y coordStart))"
    by blast
  have "sint (point_y coordStart) < sint (ViewStartIndex g t) - sint (scrollOffset t)"
    using True assms(1) by (simp add: word_sless_alt)
  with assms(2) have "0 \<le> sint (ViewStartIndex g t - point_y coordStart)"
    using r by (simp add: sint_diff_representable)
  with True r show ?thesis
    by (auto simp: ScrollToPoints_def recalc_above notify_scroll_def)
next
  case False
  show ?thesis
  proof (cases "VisibleEndIndex g t <s point_y coordEnd")
    case True
    with assms(3) have r: "representable (sint (ViewStartIndex g t) - sint (point_y coordStart))"
      by blast
    from False True r show ?thesis
      by (auto simp: ScrollToPoints_def recalc_below notify_scroll_def sint_max_CoordType)
  next
    case inside: False
    from False inside assms(2) show ?thesis
      by (auto simp: ScrollToPoints_def recalc_visible)
  qed
qed

theorem ScrollToPoints_offset_nonneg_witness:
  "sint (VisibleStartIndex example_indices (example_terminal\<lparr>scrollOffset := 5\<rparr>))
     = sint (ViewStartIndex example_indices (example_terminal\<lparr>scrollOffset := 5\<rparr>))
       - sint (scrollOffset (example_terminal\<lparr>scrollOffset := 5\<rparr>))
   \<and> 0 \<le> sint (scrollOffset (example_terminal\<lparr>scrollOffset := 5\<rparr>))
   \<and> ScrollToPoints example_indices (example_terminal\<lparr>scrollOffset := 5\<rparr>)
        \<lparr>point_x = 0, point_y = 40\<rparr> \<lparr>point_x = 5, point_y = 41\<rparr> =
       Some (example_terminal\<lparr>scrollOffset := 10, events := [TriggerScroll, NotifyScrollEvent]\<rparr>,
             10)
   \<and> 0 \<le> sint (scrollOffset
         (example_terminal\<lparr>scrollOffset := 10, events := [TriggerScroll, NotifyScrollEvent]\<rparr>))"
proof -
  have a: "sint (VisibleStartIndex example_indices (example_terminal\<lparr>scrollOffset := 5\<rparr>))
     = sint (ViewStartIndex example_indices (example_terminal\<lparr>scrollOffset := 5\<rparr>))
       - sint (scrollOffset (example_terminal\<lparr>scrollOffset := 5\<rparr>))"
    and b: "0 \<le> sint (scrollOffset (example_terminal\<lparr>scrollOffset := 5\<rparr>))"
    and r: "representable
       (sint (ViewStartIndex example_indices (example_terminal\<lparr>scrollOffset := 5\<rparr>))
        - sint (point_y \<lparr>point_x = 0, point_y = 40 :: CoordType\<rparr>))"
    by (simp_all add: example_indices_def example_terminal_def representable_def)
  have c: "ScrollToPoints example_indices (example_terminal\<lparr>scrollOffset := 5\<rparr>)
        \<lparr>point_x = 0, point_y = 40\<rparr> \<lparr>point_x = 5, point_y = 41\<rparr> =
       Some (example_terminal\<lparr>scrollOffset := 10, events := [TriggerScroll, NotifyScrollEvent]\<rparr>,
             10)"
    by (simp add: ScrollToPoints_def recalc_scrollOffset_def sub_CoordType_def representable_def
        notify_scroll_def example_indices_def example_terminal_def)
  from ScrollToPoints_offset_nonneg [OF a b r, of "\<lparr>point_x = 5, point_y = 41\<rparr>",
      THEN conjunct2, rule_format, OF c] a b c
  show ?thesis by blast
qed

section \<open>Focusing a search highlight\<close>

subsection \<open>Where the range lies after the call\<close>







section \<open>The console title\<close>

text \<open>
  Claim C10. \<^verbatim>\<open>GetConsoleTitle\<close> returns the title when \<^verbatim>\<open>_title\<close> holds one and the
  starting title otherwise. It is a total function of the state, and two states with
  the same \<^verbatim>\<open>_title\<close> and the same \<^verbatim>\<open>_startingTitle\<close> give the same result.
\<close>

theorem GetConsoleTitle_title_or_startingTitle:
  "(\<forall>s. title t = Some s \<longrightarrow> GetConsoleTitle t = s)
   \<and> (title t = None \<longrightarrow> GetConsoleTitle t = startingTitle t)
   \<and> (title t = title t' \<and> startingTitle t = startingTitle t' \<longrightarrow>
        GetConsoleTitle t = GetConsoleTitle t')"
  by (auto simp: GetConsoleTitle_def split: option.splits)

theorem GetConsoleTitle_title_or_startingTitle_witness:
  "GetConsoleTitle (example_terminal\<lparr>title := Some [0x76, 0x69], startingTitle := [0x73, 0x68]\<rparr>)
     = [0x76, 0x69]
   \<and> GetConsoleTitle (example_terminal\<lparr>startingTitle := [0x73, 0x68]\<rparr>) = [0x73, 0x68]
   \<and> GetConsoleTitle (example_terminal\<lparr>scrollOffset := 7, startingTitle := [0x73, 0x68]\<rparr>)
     = GetConsoleTitle (example_terminal\<lparr>startingTitle := [0x73, 0x68]\<rparr>)"
proof -
  have a: "title (example_terminal\<lparr>title := Some [0x76, 0x69], startingTitle := [0x73, 0x68]\<rparr>)
      = Some [0x76, 0x69]"
    by simp
  have b: "title (example_terminal\<lparr>startingTitle := [0x73, 0x68]\<rparr>) = None"
    by (simp add: example_terminal_def)
  have c: "title (example_terminal\<lparr>scrollOffset := 7, startingTitle := [0x73, 0x68]\<rparr>)
        = title (example_terminal\<lparr>startingTitle := [0x73, 0x68]\<rparr>)
      \<and> startingTitle (example_terminal\<lparr>scrollOffset := 7, startingTitle := [0x73, 0x68]\<rparr>)
        = startingTitle (example_terminal\<lparr>startingTitle := [0x73, 0x68]\<rparr>)"
    by simp
  note w = GetConsoleTitle_title_or_startingTitle
  from w [THEN conjunct1, rule_format, OF a]
    w [THEN conjunct2, THEN conjunct1, rule_format, OF b]
    w [THEN conjunct2, THEN conjunct2, rule_format, OF c]
  show ?thesis by simp
qed

section \<open>Pattern ids of a location\<close>

lemma emplace_values_append:
  "emplace_values intervals result = result @ map interval_value intervals"
  by (induction intervals arbitrary: result) simp_all

text \<open>
  Claim C6. For a location whose column is not the largest coordinate,
  \<^verbatim>\<open>GetPatternId\<close> returns the identifiers of the intervals that the index reports as
  overlapping the queried range, one for each such interval: as many identifiers as
  overlapping intervals, and the same identifiers with the same multiplicities. The
  result is empty when the index holds no interval and when no interval of the index
  overlaps the range.
\<close>

theorem GetPatternId_overlapping:
  assumes "add_CoordType (point_x location) 1 = Some x1"
  shows "GetPatternId overlaps t location =
           Some (map interval_value
                  (filter (overlaps \<lparr>point_x = x1, point_y = point_y location\<rparr> location)
                     (patternIntervalTree t)))
       \<and> (patternIntervalTree t = [] \<longrightarrow> GetPatternId overlaps t location = Some [])
       \<and> ((\<forall>i \<in> set (patternIntervalTree t).
              \<not> overlaps \<lparr>point_x = x1, point_y = point_y location\<rparr> location i) \<longrightarrow>
            GetPatternId overlaps t location = Some [])
       \<and> (\<forall>ids. GetPatternId overlaps t location = Some ids \<longrightarrow>
            length ids =
              length (filter (overlaps \<lparr>point_x = x1, point_y = point_y location\<rparr> location)
                        (patternIntervalTree t))
            \<and> mset ids =
              image_mset interval_value
                (filter_mset (overlaps \<lparr>point_x = x1, point_y = point_y location\<rparr> location)
                   (mset (patternIntervalTree t))))"
proof -
  have eq: "GetPatternId overlaps t location =
           Some (map interval_value
                  (filter (overlaps \<lparr>point_x = x1, point_y = point_y location\<rparr> location)
                     (patternIntervalTree t)))"
    using assms
    by (simp add: GetPatternId_def findOverlapping_def emplace_values_append Let_def)
  show ?thesis
    unfolding eq by (auto simp: filter_empty_conv)
qed

text \<open>
  Column 4 of row 7 lies in two of three stored intervals; an empty index and an index
  with no interval on row 7 give the empty result.
\<close>

theorem GetPatternId_overlapping_witness:
  "add_CoordType (point_x \<lparr>point_x = 4, point_y = 7\<rparr>) 1 = Some 5
   \<and> GetPatternId example_overlaps
       (example_terminal\<lparr>patternIntervalTree :=
          [example_interval 7 0 10 11, example_interval 8 0 10 12, example_interval 7 3 6 13]\<rparr>)
       \<lparr>point_x = 4, point_y = 7\<rparr> = Some [11, 13]
   \<and> GetPatternId example_overlaps example_terminal \<lparr>point_x = 4, point_y = 7\<rparr> = Some []
   \<and> GetPatternId example_overlaps
       (example_terminal\<lparr>patternIntervalTree := [example_interval 8 0 10 12]\<rparr>)
       \<lparr>point_x = 4, point_y = 7\<rparr> = Some []"
proof -
  have a: "add_CoordType (point_x \<lparr>point_x = 4, point_y = 7\<rparr>) 1 = Some 5"
    by (simp add: add_CoordType_def representable_def)
  show ?thesis
    using a
      GetPatternId_overlapping [OF a, THEN conjunct1, of example_overlaps
        "example_terminal\<lparr>patternIntervalTree :=
          [example_interval 7 0 10 11, example_interval 8 0 10 12, example_interval 7 3 6 13]\<rparr>"]
      GetPatternId_overlapping [OF a, THEN conjunct1, of example_overlaps example_terminal]
      GetPatternId_overlapping [OF a, THEN conjunct1, of example_overlaps
        "example_terminal\<lparr>patternIntervalTree := [example_interval 8 0 10 12]\<rparr>"]
    by (simp add: example_overlaps_def example_interval_def example_terminal_def
        word_sle_eq word_sless_alt)
qed

section \<open>The accessors that catch\<close>

text \<open>
  The loop of \<^verbatim>\<open>GetSelectionRects\<close> ends with a value only when every rectangle
  was converted and appended: what it returns then is the conversion of the whole
  selection, in order. A failure on the way discards what was appended so far.
\<close>

lemma emplace_viewports_Inr:
  "emplace_viewports FromInclusive emplace_ok rects result = Inr vs \<Longrightarrow>
   \<exists>ws. vs = result @ ws \<and> map FromInclusive rects = map Inr ws"
proof (induction rects arbitrary: result)
  case Nil
  then show ?case by simp
next
  case (Cons lineRect rest)
  from Cons.prems obtain v where v: "FromInclusive lineRect = Inr v"
    and rest: "emplace_viewports FromInclusive emplace_ok rest (result @ [v]) = Inr vs"
    by (auto split: sum.splits if_splits)
  from Cons.IH [OF rest] obtain ws where "vs = (result @ [v]) @ ws"
    and "map FromInclusive rest = map Inr ws"
    by blast
  with v have "vs = result @ (v # ws) \<and> map FromInclusive (lineRect # rest) = map Inr (v # ws)"
    by simp
  then show ?case by blast
qed

text \<open>
  As long as every conversion and every \<^verbatim>\<open>emplace_back\<close> succeeds, the loop appends
  the converted rectangles and goes on with the rest.
\<close>

lemma emplace_viewports_prefix:
  "map FromInclusive pre = map Inr vs \<Longrightarrow>
   \<forall>j < length pre. emplace_ok (length result + j) \<Longrightarrow>
   emplace_viewports FromInclusive emplace_ok (pre @ rest) result =
     emplace_viewports FromInclusive emplace_ok rest (result @ vs)"
proof (induction pre arbitrary: result vs)
  case Nil
  then show ?case by simp
next
  case (Cons lineRect pre)
  from Cons.prems(1) obtain v ws where vs: "vs = v # ws"
    and v: "FromInclusive lineRect = Inr v" and ws: "map FromInclusive pre = map Inr ws"
    by (cases vs) auto
  from Cons.prems(2) have ok0: "emplace_ok (length result)"
    and ok: "\<forall>j < length pre. emplace_ok (length (result @ [v]) + j)"
    by force+
  from Cons.IH [OF ws ok] v ok0 vs show ?case
    by simp
qed

text \<open>
  Claim C8. The result of \<^verbatim>\<open>GetSelectionRects\<close> and of \<^verbatim>\<open>GetSearchHighlights\<close> is a
  vector and a log, never an exception, and every failure in their bodies ends in the
  empty vector and one log entry. For \<^verbatim>\<open>GetSelectionRects\<close>: an exception of
  \<^verbatim>\<open>_GetSelectionRects()\<close>; an exception of \<^verbatim>\<open>Viewport::FromInclusive\<close> on a
  rectangle, after any number of rectangles converted and appended; an
  \<^verbatim>\<open>emplace_back\<close> that finds no memory, likewise. Without a failure the result is the
  conversion of the whole selection and nothing is logged; there is no other outcome,
  in particular no partial vector. For \<^verbatim>\<open>GetSearchHighlights\<close>: an iterator pair that
  is no range, and memory not found for the result vector; otherwise the result is
  the slice between the two iterators and nothing is logged.
\<close>

theorem accessors_catch_every_exception:
  "(\<forall>e. GetSelectionRects_inner t = Inl e \<longrightarrow>
        GetSelectionRects GetSelectionRects_inner FromInclusive emplace_ok t = ([], [e]))
   \<and> (\<forall>pre lineRect post vs e.
        GetSelectionRects_inner t = Inr (pre @ lineRect # post) \<and>
        map FromInclusive pre = map Inr vs \<and> (\<forall>j < length pre. emplace_ok j) \<and>
        FromInclusive lineRect = Inl e \<longrightarrow>
        GetSelectionRects GetSelectionRects_inner FromInclusive emplace_ok t = ([], [e]))
   \<and> (\<forall>pre lineRect post vs v.
        GetSelectionRects_inner t = Inr (pre @ lineRect # post) \<and>
        map FromInclusive pre = map Inr vs \<and> (\<forall>j < length pre. emplace_ok j) \<and>
        FromInclusive lineRect = Inr v \<and> \<not> emplace_ok (length pre) \<longrightarrow>
        GetSelectionRects GetSelectionRects_inner FromInclusive emplace_ok t = ([], [bad_alloc]))
   \<and> (\<forall>rects vs.
        GetSelectionRects_inner t = Inr rects \<and>
        map FromInclusive rects = map Inr vs \<and> (\<forall>j < length rects. emplace_ok j) \<longrightarrow>
        GetSelectionRects GetSelectionRects_inner FromInclusive emplace_ok t = (vs, []))
   \<and> ((snd (GetSelectionRects GetSelectionRects_inner FromInclusive emplace_ok t) = [] \<and>
         (\<exists>rects. GetSelectionRects_inner t = Inr rects \<and>
            map FromInclusive rects =
              map Inr (fst (GetSelectionRects GetSelectionRects_inner FromInclusive emplace_ok t))))
        \<or> (fst (GetSelectionRects GetSelectionRects_inner FromInclusive emplace_ok t) = [] \<and>
            (\<exists>e. snd (GetSelectionRects GetSelectionRects_inner FromInclusive emplace_ok t) = [e])))
   \<and> (let lowerIt = lower_bound (searchHighlights t) (viewport_Top viewport)
                       (\<lambda>rect value. rect_top rect <s value);
            upperIt = upper_bound (searchHighlights t) (viewport_BottomExclusive viewport)
                       (\<lambda>value rect. value <s rect_top rect)
        in (upperIt < lowerIt \<longrightarrow>
              GetSearchHighlights alloc viewport t = ([], [length_error]))
         \<and> (lowerIt < upperIt \<and> \<not> alloc (upperIt - lowerIt) \<longrightarrow>
              GetSearchHighlights alloc viewport t = ([], [bad_alloc]))
         \<and> (lowerIt = upperIt \<or> lowerIt < upperIt \<and> alloc (upperIt - lowerIt) \<longrightarrow>
              GetSearchHighlights alloc viewport t =
                (take (upperIt - lowerIt) (drop lowerIt (searchHighlights t)), [])))"
proof -
  let ?G = "GetSelectionRects GetSelectionRects_inner FromInclusive emplace_ok t"
  have a: "\<forall>e. GetSelectionRects_inner t = Inl e \<longrightarrow> ?G = ([], [e])"
    by (simp add: GetSelectionRects_def GetSelectionRects_body_def catch_all_def)
  have b: "\<forall>pre lineRect post vs e.
        GetSelectionRects_inner t = Inr (pre @ lineRect # post) \<and>
        map FromInclusive pre = map Inr vs \<and> (\<forall>j < length pre. emplace_ok j) \<and>
        FromInclusive lineRect = Inl e \<longrightarrow> ?G = ([], [e])"
  proof (intro allI impI, elim conjE)
    fix pre lineRect post vs e
    assume h: "GetSelectionRects_inner t = Inr (pre @ lineRect # post)"
      "map FromInclusive pre = map Inr vs" "\<forall>j < length pre. emplace_ok j"
      "FromInclusive lineRect = Inl e"
    have "emplace_viewports FromInclusive emplace_ok (pre @ lineRect # post) [] =
        emplace_viewports FromInclusive emplace_ok (lineRect # post) ([] @ vs)"
      using h(2,3) by (intro emplace_viewports_prefix) simp_all
    with h(1,4) show "?G = ([], [e])"
      by (simp add: GetSelectionRects_def GetSelectionRects_body_def catch_all_def)
  qed
  have c: "\<forall>pre lineRect post vs v.
        GetSelectionRects_inner t = Inr (pre @ lineRect # post) \<and>
        map FromInclusive pre = map Inr vs \<and> (\<forall>j < length pre. emplace_ok j) \<and>
        FromInclusive lineRect = Inr v \<and> \<not> emplace_ok (length pre) \<longrightarrow> ?G = ([], [bad_alloc])"
  proof (intro allI impI, elim conjE)
    fix pre lineRect post vs v
    assume h: "GetSelectionRects_inner t = Inr (pre @ lineRect # post)"
      "map FromInclusive pre = map Inr vs" "\<forall>j < length pre. emplace_ok j"
      "FromInclusive lineRect = Inr v" "\<not> emplace_ok (length pre)"
    have "emplace_viewports FromInclusive emplace_ok (pre @ lineRect # post) [] =
        emplace_viewports FromInclusive emplace_ok (lineRect # post) ([] @ vs)"
      using h(2,3) by (intro emplace_viewports_prefix) simp_all
    moreover have "length vs = length pre"
      using h(2) by (metis length_map)
    ultimately show "?G = ([], [bad_alloc])"
      using h(1,4,5)
      by (simp add: GetSelectionRects_def GetSelectionRects_body_def catch_all_def)
  qed
  have d: "\<forall>rects vs.
        GetSelectionRects_inner t = Inr rects \<and>
        map FromInclusive rects = map Inr vs \<and> (\<forall>j < length rects. emplace_ok j) \<longrightarrow>
        ?G = (vs, [])"
  proof (intro allI impI, elim conjE)
    fix rects vs
    assume h: "GetSelectionRects_inner t = Inr rects"
      "map FromInclusive rects = map Inr vs" "\<forall>j < length rects. emplace_ok j"
    have "emplace_viewports FromInclusive emplace_ok (rects @ []) [] =
        emplace_viewports FromInclusive emplace_ok [] ([] @ vs)"
      using h(2,3) by (intro emplace_viewports_prefix) simp_all
    with h(1) show "?G = (vs, [])"
      by (simp add: GetSelectionRects_def GetSelectionRects_body_def catch_all_def)
  qed
  have e: "(snd ?G = [] \<and>
         (\<exists>rects. GetSelectionRects_inner t = Inr rects \<and>
            map FromInclusive rects = map Inr (fst ?G)))
        \<or> (fst ?G = [] \<and> (\<exists>e. snd ?G = [e]))"
  proof (cases "GetSelectionRects_body GetSelectionRects_inner FromInclusive emplace_ok t")
    case (Inl x)
    then show ?thesis
      by (simp add: GetSelectionRects_def catch_all_def)
  next
    case (Inr vs)
    then obtain rects where rects: "GetSelectionRects_inner t = Inr rects"
      and loop: "emplace_viewports FromInclusive emplace_ok rects [] = Inr vs"
      by (auto simp: GetSelectionRects_body_def split: sum.splits)
    from emplace_viewports_Inr [OF loop] have "map FromInclusive rects = map Inr vs"
      by simp
    with rects Inr show ?thesis
      by (simp add: GetSelectionRects_def catch_all_def)
  qed
  have f: "let lowerIt = lower_bound (searchHighlights t) (viewport_Top viewport)
                       (\<lambda>rect value. rect_top rect <s value);
            upperIt = upper_bound (searchHighlights t) (viewport_BottomExclusive viewport)
                       (\<lambda>value rect. value <s rect_top rect)
        in (upperIt < lowerIt \<longrightarrow>
              GetSearchHighlights alloc viewport t = ([], [length_error]))
         \<and> (lowerIt < upperIt \<and> \<not> alloc (upperIt - lowerIt) \<longrightarrow>
              GetSearchHighlights alloc viewport t = ([], [bad_alloc]))
         \<and> (lowerIt = upperIt \<or> lowerIt < upperIt \<and> alloc (upperIt - lowerIt) \<longrightarrow>
              GetSearchHighlights alloc viewport t =
                (take (upperIt - lowerIt) (drop lowerIt (searchHighlights t)), []))"
    by (auto simp: Let_def GetSearchHighlights_def GetSearchHighlights_body_def
        vector_from_range_def catch_all_def)
  show ?thesis
    by (intro conjI a b c d e f)
qed


text \<open>
  Failures of each kind: the selection helper raises; \<^verbatim>\<open>Viewport::FromInclusive\<close> raises
  on the second rectangle; \<^verbatim>\<open>emplace_back\<close> finds no memory for a second element; the
  memory for the visible highlights is not found. Next to them, the same calls without
  the failure.
\<close>

theorem accessors_catch_every_exception_witness:
  "GetSelectionRects (\<lambda>t. Inl (other_exception ''selection'')) (\<lambda>r. Inr r) (\<lambda>n. True)
      example_terminal = ([], [other_exception ''selection''])
   \<and> GetSelectionRects (\<lambda>t. Inr [rect_at 3, rect_at 4])
        (\<lambda>r. if r = rect_at 4 then Inl (other_exception ''FromInclusive'') else Inr r)
        (\<lambda>n. True) example_terminal = ([], [other_exception ''FromInclusive''])
   \<and> GetSelectionRects (\<lambda>t. Inr [rect_at 3, rect_at 4]) (\<lambda>r. Inr r) (\<lambda>n. n < 1)
      example_terminal = ([], [bad_alloc])
   \<and> GetSelectionRects (\<lambda>t. Inr [rect_at 3, rect_at 4]) (\<lambda>r. Inr r) (\<lambda>n. True)
      example_terminal = ([rect_at 3, rect_at 4], [])
   \<and> GetSearchHighlights (\<lambda>n. False) \<lparr>viewport_Top = 100, viewport_BottomExclusive = 124\<rparr>
      (example_terminal\<lparr>searchHighlights := [rect_at 90, rect_at 105, rect_at 130]\<rparr>)
      = ([], [bad_alloc])
   \<and> GetSearchHighlights (\<lambda>n. True) \<lparr>viewport_Top = 100, viewport_BottomExclusive = 124\<rparr>
      (example_terminal\<lparr>searchHighlights := [rect_at 90, rect_at 105, rect_at 130]\<rparr>)
      = ([rect_at 105], [])"
proof -
  note w = accessors_catch_every_exception
  have ne: "rect_at 3 \<noteq> rect_at 4"
    by (simp add: rect_at_def)
  have g1: "GetSelectionRects (\<lambda>t. Inl (other_exception ''selection''))
      (\<lambda>r. Inr r :: exception + inclusive_rect) (\<lambda>n. True) example_terminal
      = ([], [other_exception ''selection''])"
    by (rule w [THEN conjunct1, rule_format]) simp
  have g2: "GetSelectionRects (\<lambda>t. Inr [rect_at 3, rect_at 4])
        (\<lambda>r. if r = rect_at 4 then Inl (other_exception ''FromInclusive'') else Inr r)
        (\<lambda>n. True) example_terminal = ([], [other_exception ''FromInclusive''])"
    by (rule w [THEN conjunct2, THEN conjunct1, rule_format,
          of _ _ "[rect_at 3]" "rect_at 4" "[]" _ "[rect_at 3]"])
      (simp add: ne)
  have g3: "GetSelectionRects (\<lambda>t. Inr [rect_at 3, rect_at 4])
      (\<lambda>r. Inr r :: exception + inclusive_rect) (\<lambda>n. n < 1) example_terminal
      = ([], [bad_alloc])"
    by (rule w [THEN conjunct2, THEN conjunct2, THEN conjunct1, rule_format,
          of _ _ "[rect_at 3]" "rect_at 4" "[]" _ "[rect_at 3]" _ "rect_at 4"])
      simp
  have g4: "GetSelectionRects (\<lambda>t. Inr [rect_at 3, rect_at 4])
      (\<lambda>r. Inr r :: exception + inclusive_rect) (\<lambda>n. True) example_terminal
      = ([rect_at 3, rect_at 4], [])"
    by (rule w [THEN conjunct2, THEN conjunct2, THEN conjunct2, THEN conjunct1, rule_format,
          of _ _ "[rect_at 3, rect_at 4]"])
      simp
  let ?vp = "\<lparr>viewport_Top = 100, viewport_BottomExclusive = 124\<rparr>"
  let ?t = "example_terminal\<lparr>searchHighlights := [rect_at 90, rect_at 105, rect_at 130]\<rparr>"
  have lo: "lower_bound (searchHighlights ?t) (viewport_Top ?vp)
      (\<lambda>rect value. rect_top rect <s value) = 1"
    and hi: "upper_bound (searchHighlights ?t) (viewport_BottomExclusive ?vp)
      (\<lambda>value rect. value <s rect_top rect) = 2"
    by (simp_all add: lower_bound_def upper_bound_def lower_bound_loop.simps
        upper_bound_loop.simps rect_at_def)
  note h = w [where t = ?t and viewport = ?vp, THEN conjunct2, THEN conjunct2, THEN conjunct2,
      THEN conjunct2, THEN conjunct2, unfolded Let_def lo hi]
  have g5: "GetSearchHighlights (\<lambda>n. False) ?vp ?t = ([], [bad_alloc])"
    by (rule h [THEN conjunct2, THEN conjunct1, rule_format]) simp
  have g6: "GetSearchHighlights (\<lambda>n. True) ?vp ?t = ([rect_at 105], [])"
    using h [THEN conjunct2, THEN conjunct2, rule_format, of "\<lambda>n. True"]
    by simp
  from g1 g2 g3 g4 g5 g6 show ?thesis
    by blast
qed

section \<open>The visible search highlights\<close>

subsection \<open>The halving search finds the partition point\<close>

lemma upper_bound_loop_as_lower:
  "upper_bound_loop xs v pred first len = lower_bound_loop xs v (\<lambda>a w. \<not> pred w a) first len"
proof (induction xs v pred first len rule: upper_bound_loop.induct)
  case (1 xs v pred first len)
  then show ?case
    by (subst upper_bound_loop.simps, subst lower_bound_loop.simps) simp
qed

lemma lower_bound_loop_partition:
  assumes "first + len \<le> length xs"
    and "\<And>i j. first \<le> i \<Longrightarrow> i \<le> j \<Longrightarrow> j < first + len \<Longrightarrow> pred (xs ! j) v \<Longrightarrow> pred (xs ! i) v"
  shows "first \<le> lower_bound_loop xs v pred first len
       \<and> lower_bound_loop xs v pred first len \<le> first + len
       \<and> (\<forall>i. first \<le> i \<and> i < lower_bound_loop xs v pred first len \<longrightarrow> pred (xs ! i) v)
       \<and> (\<forall>i. lower_bound_loop xs v pred first len \<le> i \<and> i < first + len \<longrightarrow> \<not> pred (xs ! i) v)"
  using assms
proof (induction xs v pred first len rule: lower_bound_loop.induct)
  case (1 xs v pred first len)
  note mono = "1.prems"(2)
  show ?case
  proof (cases "0 < len")
    case False
    then have "lower_bound_loop xs v pred first len = first"
      by (subst lower_bound_loop.simps) simp
    with False show ?thesis by auto
  next
    case pos: True
    let ?mid = "first + len div 2"
    have mid: "first \<le> ?mid" "?mid < first + len"
      using pos by auto
    show ?thesis
    proof (cases "pred (xs ! ?mid) v")
      case True
      let ?r = "lower_bound_loop xs v pred (?mid + 1) (len - (len div 2 + 1))"
      have eq: "lower_bound_loop xs v pred first len = ?r"
        using pos True by (subst lower_bound_loop.simps) simp
      have end_eq: "?mid + 1 + (len - (len div 2 + 1)) = first + len"
        using pos by auto
      have IH: "?mid + 1 \<le> ?r \<and> ?r \<le> first + len
          \<and> (\<forall>i. ?mid + 1 \<le> i \<and> i < ?r \<longrightarrow> pred (xs ! i) v)
          \<and> (\<forall>i. ?r \<le> i \<and> i < first + len \<longrightarrow> \<not> pred (xs ! i) v)"
        using "1.IH"(1) [OF pos True] "1.prems"(1) mono end_eq by auto
      have low: "pred (xs ! i) v" if "first \<le> i" "i \<le> ?mid" for i
        using mono [OF that(1) that(2) mid(2) True] .
      have "\<forall>i. first \<le> i \<and> i < ?r \<longrightarrow> pred (xs ! i) v"
      proof (intro allI impI)
        fix i assume i: "first \<le> i \<and> i < ?r"
        show "pred (xs ! i) v"
        proof (cases "i \<le> ?mid")
          case True
          with i low show ?thesis by blast
        next
          case False
          with i IH show ?thesis by simp
        qed
      qed
      with IH show ?thesis
        unfolding eq by auto
    next
      case False
      let ?r = "lower_bound_loop xs v pred first (len div 2)"
      have eq: "lower_bound_loop xs v pred first len = ?r"
        using pos False by (subst lower_bound_loop.simps) simp
      have IH: "first \<le> ?r \<and> ?r \<le> ?mid
          \<and> (\<forall>i. first \<le> i \<and> i < ?r \<longrightarrow> pred (xs ! i) v)
          \<and> (\<forall>i. ?r \<le> i \<and> i < ?mid \<longrightarrow> \<not> pred (xs ! i) v)"
        using "1.IH"(2) [OF pos False] "1.prems"(1) mono mid by auto
      have high: "\<not> pred (xs ! j) v" if "?mid \<le> j" "j < first + len" for j
        using mono [OF mid(1) that(1) that(2)] False by blast
      have "\<forall>i. ?r \<le> i \<and> i < first + len \<longrightarrow> \<not> pred (xs ! i) v"
      proof (intro allI impI)
        fix i assume i: "?r \<le> i \<and> i < first + len"
        show "\<not> pred (xs ! i) v"
        proof (cases "i < ?mid")
          case True
          with i IH show ?thesis by simp
        next
          case False
          with i high show ?thesis by simp
        qed
      qed
      with IH mid show ?thesis
        unfolding eq by auto
    qed
  qed
qed

lemma filter_index_range:
  assumes "lo \<le> length xs" "hi \<le> length xs"
    and "\<And>i. i < length xs \<Longrightarrow> P (xs ! i) \<longleftrightarrow> lo \<le> i \<and> i < hi"
  shows "filter P xs = take (hi - lo) (drop lo xs)"
proof (cases "lo \<le> hi")
  case False
  then have "\<forall>x \<in> set xs. \<not> P x"
    using assms(3) by (auto simp: in_set_conv_nth)
  then have "filter P xs = []"
    by (simp add: filter_empty_conv)
  with False show ?thesis by simp
next
  case True
  have split: "xs = take lo xs @ take (hi - lo) (drop lo xs) @ drop hi xs"
    using True by (metis append_take_drop_id drop_drop le_add_diff_inverse2 add.commute)
  have a: "filter P (take lo xs) = []"
    using assms(1,3) by (auto simp: filter_empty_conv in_set_conv_nth)
  have b: "filter P (take (hi - lo) (drop lo xs)) = take (hi - lo) (drop lo xs)"
    using assms True by (auto simp: filter_id_conv in_set_conv_nth)
  have c: "filter P (drop hi xs) = []"
    using assms(2,3) by (auto simp: filter_empty_conv in_set_conv_nth)
  have "filter P xs = filter P (take lo xs @ take (hi - lo) (drop lo xs) @ drop hi xs)"
    using split by simp
  also have "\<dots> = take (hi - lo) (drop lo xs)"
    by (simp only: filter_append a b c append_Nil append_Nil2)
  finally show ?thesis .
qed


lemma sorted_by_top_nth:
  "sorted_by_top xs \<Longrightarrow> i \<le> j \<Longrightarrow> j < length xs \<Longrightarrow> rect_top (xs ! i) \<le>s rect_top (xs ! j)"
  by (cases "i = j") (auto simp: sorted_by_top_def sorted_wrt_iff_nth_less)

lemma lower_bound_sorted:
  assumes "sorted_by_top xs" and "i < length xs"
  shows "lower_bound xs T (\<lambda>rect value. rect_top rect <s value) \<le> length xs"
    and "i < lower_bound xs T (\<lambda>rect value. rect_top rect <s value) \<longleftrightarrow> rect_top (xs ! i) <s T"
proof -
  have mono: "rect_top (xs ! i) <s T"
    if "i \<le> j" "j < 0 + length xs" "rect_top (xs ! j) <s T" for i j
    using sorted_by_top_nth [OF assms(1) that(1)] that(2,3)
    by (simp add: word_sless_alt word_sle_eq)
  have p: "lower_bound xs T (\<lambda>rect value. rect_top rect <s value) \<le> length xs
       \<and> (\<forall>i. i < lower_bound xs T (\<lambda>rect value. rect_top rect <s value) \<longrightarrow> rect_top (xs ! i) <s T)
       \<and> (\<forall>i. lower_bound xs T (\<lambda>rect value. rect_top rect <s value) \<le> i \<and> i < length xs
              \<longrightarrow> \<not> rect_top (xs ! i) <s T)"
    unfolding lower_bound_def
    using lower_bound_loop_partition
      [of 0 "length xs" xs "\<lambda>rect value. rect_top rect <s value" T] mono
    by simp
  from p show "lower_bound xs T (\<lambda>rect value. rect_top rect <s value) \<le> length xs"
    by simp
  from p assms(2)
  show "i < lower_bound xs T (\<lambda>rect value. rect_top rect <s value) \<longleftrightarrow> rect_top (xs ! i) <s T"
    by (meson not_le)
qed

lemma upper_bound_sorted:
  assumes "sorted_by_top xs" and "i < length xs"
  shows "upper_bound xs B (\<lambda>value rect. value <s rect_top rect) \<le> length xs"
    and "i < upper_bound xs B (\<lambda>value rect. value <s rect_top rect) \<longleftrightarrow> \<not> B <s rect_top (xs ! i)"
proof -
  have mono: "\<not> B <s rect_top (xs ! i)"
    if "i \<le> j" "j < 0 + length xs" "\<not> B <s rect_top (xs ! j)" for i j
    using sorted_by_top_nth [OF assms(1) that(1)] that(2,3)
    by (simp add: word_sless_alt word_sle_eq)
  have p: "upper_bound xs B (\<lambda>value rect. value <s rect_top rect) \<le> length xs
       \<and> (\<forall>i. i < upper_bound xs B (\<lambda>value rect. value <s rect_top rect) \<longrightarrow> \<not> B <s rect_top (xs ! i))
       \<and> (\<forall>i. upper_bound xs B (\<lambda>value rect. value <s rect_top rect) \<le> i \<and> i < length xs
              \<longrightarrow> B <s rect_top (xs ! i))"
    unfolding upper_bound_def upper_bound_loop_as_lower
    using lower_bound_loop_partition
      [of 0 "length xs" xs "\<lambda>rect value. \<not> value <s rect_top rect" B] mono
    by simp
  from p show "upper_bound xs B (\<lambda>value rect. value <s rect_top rect) \<le> length xs"
    by simp
  from p assms(2)
  show "i < upper_bound xs B (\<lambda>value rect. value <s rect_top rect) \<longleftrightarrow> \<not> B <s rect_top (xs ! i)"
    by (meson not_le)
qed

lemma bound_le_length_Nil:
  "lower_bound [] T p = 0" "upper_bound [] B q = 0"
  by (simp_all add: lower_bound_def upper_bound_def lower_bound_loop.simps upper_bound_loop.simps)

lemma GetSearchHighlights_sorted:
  assumes "sorted_by_top (searchHighlights t)" and "\<And>n. alloc n"
  shows "fst (GetSearchHighlights alloc viewport t) =
           filter (\<lambda>rect. viewport_Top viewport \<le>s rect_top rect
                         \<and> rect_top rect \<le>s viewport_BottomExclusive viewport)
             (searchHighlights t)"
proof -
  let ?xs = "searchHighlights t"
  let ?lo = "lower_bound ?xs (viewport_Top viewport) (\<lambda>rect value. rect_top rect <s value)"
  let ?hi = "upper_bound ?xs (viewport_BottomExclusive viewport) (\<lambda>value rect. value <s rect_top rect)"
  let ?P = "\<lambda>rect. viewport_Top viewport \<le>s rect_top rect
                         \<and> rect_top rect \<le>s viewport_BottomExclusive viewport"
  have le: "?lo \<le> length ?xs" "?hi \<le> length ?xs"
    using lower_bound_sorted(1) [OF assms(1)] upper_bound_sorted(1) [OF assms(1)]
    by (cases ?xs; simp add: bound_le_length_Nil; blast)+
  have idx: "?P (?xs ! i) \<longleftrightarrow> ?lo \<le> i \<and> i < ?hi" if "i < length ?xs" for i
    using lower_bound_sorted(2) [OF assms(1) that, of "viewport_Top viewport"]
      upper_bound_sorted(2) [OF assms(1) that, of "viewport_BottomExclusive viewport"]
    by (auto simp: word_sless_alt word_sle_eq)
  have slice: "filter ?P ?xs = take (?hi - ?lo) (drop ?lo ?xs)"
    by (rule filter_index_range [OF le idx])
  show ?thesis
    unfolding slice
    by (simp add: GetSearchHighlights_def GetSearchHighlights_body_def vector_from_range_def
        catch_all_def assms(2) Let_def)
qed

text \<open>
  Claim C1. The claim has the accessor return the rectangles whose top row lies in
  the half-open range from \<^verbatim>\<open>Top()\<close> to \<^verbatim>\<open>BottomExclusive()\<close>, and none whose top row
  is \<^verbatim>\<open>BottomExclusive()\<close>. The accessor ends its range with
  \<^verbatim>\<open>std::upper_bound\<close> on \<^verbatim>\<open>BottomExclusive()\<close>, the first rectangle whose top row is
  greater; so on a sorted set it returns the rectangles whose top row lies between
  \<^verbatim>\<open>Top()\<close> and \<^verbatim>\<open>BottomExclusive()\<close>, both included (the lemma above). Here the
  viewport shows rows 100 to 123 and the set holds rectangles on rows 90, 105, 124 and
  130: the rectangle on row 124, the first row below the viewport, is returned with the
  one on row 105.
\<close>

theorem GetSearchHighlights_returns_row_below_viewport:
  "GetSearchHighlights (\<lambda>n. True) \<lparr>viewport_Top = 100, viewport_BottomExclusive = 124\<rparr>
     (example_terminal\<lparr>searchHighlights := [rect_at 90, rect_at 105, rect_at 124, rect_at 130]\<rparr>)
   = ([rect_at 105, rect_at 124], [])"
  by (simp add: GetSearchHighlights_def GetSearchHighlights_body_def lower_bound_def upper_bound_def
      lower_bound_loop.simps upper_bound_loop.simps vector_from_range_def catch_all_def
      example_terminal_def rect_at_def)

end
